theory Spec2Isabelle
  imports Complex_Main
begin

section \<open>Maximum flow from St. Petersburg to Moscow as a linear program\<close>

text \<open>
  The notebook \<^verbatim>\<open>StPetersburgToMoscow.ipynb\<close> transcribes one network by hand
  into the vectors and matrices of a linear program and calls
  \<^verbatim>\<open>scipy.optimize.linprog\<close> on them once. Its numbers are Python integers that
  the solver reads as floating-point numbers; they are modelled as exact reals, vectors
  as lists and matrices as lists of rows.
\<close>

type_synonym vec = "real list"
type_synonym mat = "real list list"

subsection \<open>The cells that build the problem\<close>

text \<open>Cell 4: the labels of the edges, in the order of the variables.\<close>

definition labs :: "string list" where
  "labs = [''e_sA'', ''e_sB'', ''e_AC'', ''e_AD'', ''e_BC'', ''e_BE'', ''e_CE'', ''e_CG'',
           ''e_DI'', ''e_EF'', ''e_EG'', ''e_FH'', ''e_GH'', ''e_Ht'', ''e_GI'', ''e_IJ'',
           ''e_Jt'']"

text \<open>Cell 5: the objective, negated because \<^verbatim>\<open>linprog\<close> minimises.\<close>

definition obj :: vec where
  "obj = [0, 0, 0, 0, 0, 0, 0, 0, 0, 0, 0, 0, 0, -1, 0, 0, -1]"

text \<open>Cell 6: the capacity rows, \<^verbatim>\<open>np.eye(17)\<close> against the capacities.\<close>

definition eye :: "nat \<Rightarrow> mat" where
  "eye n = map (\<lambda>i. map (\<lambda>j. if i = j then 1 else 0) [0..<n]) [0..<n]"

definition lhs_capacity :: mat where
  "lhs_capacity = eye 17"

definition rhs_capacity :: vec where
  "rhs_capacity = [3, 3, 4, 2, 2, 2, 3, 4, 5, 3, 4, 4, 3, 5, 3, 3, 1]"

text \<open>
  Cell 8: the balance rows, one per node in the order s, A, B, C, D, E, F, G, H, I, J, t
  (the comments of the rows name the nodes).
\<close>

definition lhs_balance :: mat where
  "lhs_balance =
    [[1, 1, 0, 0, 0, 0, 0, 0, 0, 0, 0, 0, 0, -1, 0, 0, -1],
     [-1, 0, 1, 1, 0, 0, 0, 0, 0, 0, 0, 0, 0, 0, 0, 0, 0],
     [0, -1, 0, 0, 1, 1, 0, 0, 0, 0, 0, 0, 0, 0, 0, 0, 0],
     [0, 0, -1, 0, -1, 0, 1, 1, 0, 0, 0, 0, 0, 0, 0, 0, 0],
     [0, 0, 0, -1, 0, 0, 0, 0, 1, 0, 0, 0, 0, 0, 0, 0, 0],
     [0, 0, 0, 0, 0, -1, -1, 0, 0, 1, 1, 0, 0, 0, 0, 0, 0],
     [0, 0, 0, 0, 0, 0, 0, 0, 0, -1, 0, 1, 0, 0, 0, 0, 0],
     [0, 0, 0, 0, 0, 0, 0, -1, 0, 0, -1, 0, 1, 0, 1, 0, 0],
     [0, 0, 0, 0, 0, 0, 0, 0, 0, 0, 0, -1, -1, 1, 0, 0, 0],
     [0, 0, 0, 0, 0, 0, 0, 0, -1, 0, 0, 0, 0, 0, -1, 1, 0],
     [0, 0, 0, 0, 0, 0, 0, 0, 0, 0, 0, 0, 0, 0, 0, -1, 1],
     [0, 0, 0, 0, 0, 0, 0, 0, 0, 0, 0, 0, 0, 0, 0, 0, 0]]"

definition rhs_balance :: vec where
  "rhs_balance = replicate 12 0"

text \<open>
  Cell 9: a list of bounds. \<^verbatim>\<open>float("inf")\<close> is the only non-finite number of the
  notebook; an upper bound is a real or infinite.
\<close>

datatype upper = Fin real | PosInf

definition bnd :: "(real \<times> upper) list" where
  "bnd = [(0, PosInf), (0, PosInf), (0, PosInf), (0, PosInf), (0, PosInf), (0, PosInf),
          (0, PosInf), (0, PosInf), (0, PosInf), (0, PosInf), (0, PosInf), (0, PosInf)]"

subsection \<open>The graph behind the labels\<close>

text \<open>
  The notebook holds no graph: a label \<^verbatim>\<open>e_XY\<close> names the edge from node X to
  node Y, and the rows of \<^verbatim>\<open>lhs_balance\<close> are commented with their nodes.
\<close>

definition edge_src :: "string \<Rightarrow> char" where
  "edge_src l = l ! 2"

definition edge_dst :: "string \<Rightarrow> char" where
  "edge_dst l = l ! 3"

definition nodes :: "char list" where
  "nodes = ''sABCDEFGHIJt''"

definition source :: char where
  "source = CHR ''s''"

definition sink :: char where
  "sink = CHR ''t''"

subsection \<open>The call of the solver\<close>

text \<open>
  Cell 10 is
  \<^verbatim>\<open>linprog(c=obj, A_ub=lhs_capacity, b_ub=rhs_capacity, A_eq=lhs_balance, b_eq=rhs_balance, method="revised simplex")\<close>:
  it passes no \<^verbatim>\<open>bounds\<close>, so \<^verbatim>\<open>bnd\<close> never reaches the solver.
\<close>

record linprog_args =
  lp_c :: vec
  lp_A_ub :: mat
  lp_b_ub :: vec
  lp_A_eq :: mat
  lp_b_eq :: vec
  lp_bounds :: "(real \<times> upper) list option"

definition opt_args :: linprog_args where
  "opt_args = \<lparr>lp_c = obj, lp_A_ub = lhs_capacity, lp_b_ub = rhs_capacity,
                lp_A_eq = lhs_balance, lp_b_eq = rhs_balance, lp_bounds = None\<rparr>"

text \<open>
  The solver is not part of the notebook. What it is asked is taken from its
  documentation: minimise \<open>c \<cdot> x\<close> subject to \<open>A_ub x \<le> b_ub\<close>, \<open>A_eq x = b_eq\<close> and
  \<open>lb \<le> x \<le> ub\<close>, where a call without \<^verbatim>\<open>bounds\<close> bounds every variable by
  \<open>(0, None)\<close>, that is by 0 from below and by nothing from above.
\<close>

definition dot :: "vec \<Rightarrow> vec \<Rightarrow> real" where
  "dot u v = sum_list (map2 (*) u v)"

definition matvec :: "mat \<Rightarrow> vec \<Rightarrow> vec" where
  "matvec A x = map (\<lambda>row. dot row x) A"

definition linprog_bounds :: "linprog_args \<Rightarrow> (real \<times> upper) list" where
  "linprog_bounds p =
     (case lp_bounds p of
        None \<Rightarrow> replicate (length (lp_c p)) (0, PosInf)
      | Some b \<Rightarrow> b)"

fun in_bound :: "real \<times> upper \<Rightarrow> real \<Rightarrow> bool" where
  "in_bound (lo, PosInf) v = (lo \<le> v)"
| "in_bound (lo, Fin hi) v = (lo \<le> v \<and> v \<le> hi)"

definition feasible :: "linprog_args \<Rightarrow> vec \<Rightarrow> bool" where
  "feasible p x =
     (length x = length (lp_c p)
      \<and> list_all2 (\<le>) (matvec (lp_A_ub p) x) (lp_b_ub p)
      \<and> matvec (lp_A_eq p) x = lp_b_eq p
      \<and> list_all2 in_bound (linprog_bounds p) x)"

definition optimal :: "linprog_args \<Rightarrow> vec \<Rightarrow> bool" where
  "optimal p x = (feasible p x \<and> (\<forall>y. feasible p y \<longrightarrow> dot (lp_c p) x \<le> dot (lp_c p) y))"

text \<open>
  The output of cell 10 that the notebook keeps: the vector \<^verbatim>\<open>x\<close> of the result.
  The text after the cell reads the maximum flow off \<^verbatim>\<open>fun\<close> with the sign turned
  back.
\<close>

definition opt_x :: vec where
  "opt_x = [3, 3, 2, 1, 1, 2, 1, 2, 1, 3, 0, 3, 2, 5, 0, 1, 1]"

definition opt_fun :: "linprog_args \<Rightarrow> vec \<Rightarrow> real" where
  "opt_fun p x = dot (lp_c p) x"

definition max_flow :: "linprog_args \<Rightarrow> vec \<Rightarrow> real" where
  "max_flow p x = - opt_fun p x"

text \<open>
  The arguments of the call of cell 10 with the capacities of cell 6 left open: the
  notebook is the instance at \<open>rhs_capacity\<close>. This is the record that reaches the
  solver for 17 finite capacities; what a run does with a list of another length or with
  a number that is not finite is \<open>run_cells\<close> below.
\<close>

definition build :: "vec \<Rightarrow> linprog_args" where
  "build caps = \<lparr>lp_c = obj, lp_A_ub = lhs_capacity, lp_b_ub = caps,
                  lp_A_eq = lhs_balance, lp_b_eq = rhs_balance, lp_bounds = None\<rparr>"

subsection \<open>Reading the result\<close>

text \<open>
  Cell 23 is \<^verbatim>\<open>optimal_flow = np.column_stack([labs, x])\<close>: row \<open>i\<close> pairs the
  \<open>i\<close>-th label with the \<open>i\<close>-th component; columns of different lengths are a
  \<^verbatim>\<open>ValueError\<close>. (numpy prints both columns as strings; the number is kept here.)
\<close>

datatype error = ValueError

definition column_stack :: "'a list \<Rightarrow> 'b list \<Rightarrow> error + ('a \<times> 'b) list" where
  "column_stack a b = (if length a = length b then Inr (zip a b) else Inl ValueError)"

definition optimal_flow :: "vec \<Rightarrow> error + (string \<times> real) list" where
  "optimal_flow x = column_stack labs x"

subsection \<open>A run with other capacities\<close>

text \<open>
  A Python float is a finite number, an infinity or not a number.
\<close>

datatype pyfloat = Number real | PosInfinity | NegInfinity | NotANumber

fun finite_value :: "pyfloat \<Rightarrow> real option" where
  "finite_value (Number r) = Some r"
| "finite_value PosInfinity = None"
| "finite_value NegInfinity = None"
| "finite_value NotANumber = None"

text \<open>
  Cell 4 also sets \<^verbatim>\<open>nums = np.arange(17)\<close>, and cell 7 is
  \<^verbatim>\<open>labeled_capacity = np.column_stack([nums, labs, rhs_capacity])\<close>: three columns,
  a \<^verbatim>\<open>ValueError\<close> unless they are of one length.
\<close>

definition nums :: "nat list" where
  "nums = [0..<17]"

definition column_stack3 ::
  "'a list \<Rightarrow> 'b list \<Rightarrow> 'c list \<Rightarrow> error + ('a \<times> 'b \<times> 'c) list" where
  "column_stack3 a b c =
     (if length a = length b \<and> length b = length c then Inr (zip a (zip b c))
      else Inl ValueError)"

definition labeled_capacity :: "pyfloat list \<Rightarrow> error + (nat \<times> string \<times> pyfloat) list" where
  "labeled_capacity caps = column_stack3 nums labs caps"

text \<open>
  The call of cell 10 on a list of capacities. Before it solves anything the solver
  checks what it is given, and raises a \<^verbatim>\<open>ValueError\<close> when \<^verbatim>\<open>b_ub\<close> holds
  an infinity or a NaN, or has not one entry per row of \<^verbatim>\<open>A_ub\<close>. Negative numbers
  pass the check.
\<close>

definition linprog_call :: "pyfloat list \<Rightarrow> error + linprog_args" where
  "linprog_call caps =
     (case those (map finite_value caps) of
        None \<Rightarrow> Inl ValueError
      | Some v \<Rightarrow>
          if length v = length lhs_capacity then Inr (build v) else Inl ValueError)"

text \<open>
  The cells in their order, for a list of capacities in the place of
  \<^verbatim>\<open>rhs_capacity\<close>: an error of cell 7 ends the run before the call.
\<close>

definition run_cells :: "pyfloat list \<Rightarrow> error + linprog_args" where
  "run_cells caps =
     (case labeled_capacity caps of
        Inl e \<Rightarrow> Inl e
      | Inr table \<Rightarrow> linprog_call caps)"

subsection \<open>Flow at a node\<close>

text \<open>
  The flow into a node is the sum over the edges whose label ends in the node, the flow
  out of it the sum over the edges whose label starts from it.
\<close>

definition inflow :: "char \<Rightarrow> vec \<Rightarrow> real" where
  "inflow n x = sum_list (map snd (filter (\<lambda>(l, v). edge_dst l = n) (zip labs x)))"

definition outflow :: "char \<Rightarrow> vec \<Rightarrow> real" where
  "outflow n x = sum_list (map snd (filter (\<lambda>(l, v). edge_src l = n) (zip labs x)))"

definition internal :: "char list" where
  "internal = filter (\<lambda>n. n \<noteq> source \<and> n \<noteq> sink) nodes"

subsection \<open>The rows of the balance system\<close>

text \<open>
  The rule that the specification gives for a balance row: \<open>+1\<close> on the edges into the
  node, \<open>-1\<close> on the edges out of it, one row for every node but the sink.
\<close>

definition incidence_row :: "char \<Rightarrow> vec" where
  "incidence_row n =
     map (\<lambda>l. (if edge_dst l = n then 1 else 0) - (if edge_src l = n then 1 else 0)) labs"

definition spec_balance :: mat where
  "spec_balance = map incidence_row (filter (\<lambda>n. n \<noteq> sink) nodes)"

text \<open>
  The rule that the rows of cell 8 follow: \<open>+1\<close> on the edges out of the node and
  \<open>-1\<close> on the edges into it; on top of that the two extra terms that the text before
  the cell announces, \<^verbatim>\<open>- e_Jt - e_Ht\<close> in the row of the source and
  \<^verbatim>\<open>+ e_Jt + e_Ht\<close> in the row of the target.
\<close>

definition balance_row :: "char \<Rightarrow> vec" where
  "balance_row n =
     map (\<lambda>l. (if edge_src l = n then 1 else 0) - (if edge_dst l = n then 1 else 0)
            + (if edge_dst l = sink
               then (if n = sink then 1 else if n = source then - 1 else 0)
               else 0)) labs"

definition add_rows :: "mat \<Rightarrow> vec" where
  "add_rows A = foldr (map2 (+)) A (replicate 17 0)"

section \<open>Properties\<close>

subsection \<open>Vectors of length 17, the identity matrix and the balance equations\<close>

lemma len17: "length (x::'a list) = 17 \<Longrightarrow> \<exists>a0 a1 a2 a3 a4 a5 a6 a7 a8 a9 a10 a11 a12 a13 a14 a15 a16. x = [a0,a1,a2,a3,a4,a5,a6,a7,a8,a9,a10,a11,a12,a13,a14,a15,a16]"
  by (simp add: numeral_eq_Suc length_Suc_conv) blast

lemma dot_unit:
  assumes "length x = n" "i < n"
  shows "dot (map (\<lambda>j. if i = j then 1 else 0) [0..<n]) x = x ! i"
proof -
  have z: "zip (map (\<lambda>j. if i = j then 1 else 0) [0..<n]) x
           = map (\<lambda>j. ((if i = j then 1 else 0), x ! j)) [0..<n]"
    using assms by (intro nth_equalityI) simp_all
  have "dot (map (\<lambda>j. if i = j then 1 else 0) [0..<n]) x
        = sum_list (map (\<lambda>j. (if i = j then 1 else 0) * x ! j) [0..<n])"
    unfolding dot_def z by (simp add: comp_def)
  also have "\<dots> = (\<Sum>j\<in>{0..<n}. (if i = j then 1 else 0) * x ! j)"
    by (simp add: interv_sum_list_conv_sum_set_nat)
  also have "\<dots> = (\<Sum>j\<in>{0..<n}. if i = j then x ! j else 0)"
    by (intro sum.cong) simp_all
  also have "\<dots> = x ! i"
    using assms by simp
  finally show ?thesis .
qed

text \<open>The capacity rows \<open>np.eye(17) x \<le> b_ub\<close> say \<open>x \<le> b_ub\<close>, component by component.\<close>

lemma matvec_eye: "length x = n \<Longrightarrow> matvec (eye n) x = x"
  by (intro nth_equalityI) (simp_all add: matvec_def eye_def dot_unit)

lemma rhs_balance_rows: "rhs_balance = [0,0,0,0,0,0,0,0,0,0,0,0]"
  by (simp add: rhs_balance_def numeral_eq_Suc)

lemma length_obj: "length obj = 17"
  by (simp add: obj_def)

lemma length_labs: "length labs = 17"
  by (simp add: labs_def)

lemma opt_args_build: "opt_args = build rhs_capacity"
  by (simp add: opt_args_def build_def)

lemma build_bounds: "linprog_bounds (build caps) = replicate 17 (0, PosInf)"
  by (simp add: linprog_bounds_def build_def length_obj)

lemma nonneg_bounds: "list_all2 in_bound (replicate n (0, PosInf)) x \<longleftrightarrow> length x = n \<and> (\<forall>v \<in> set x. 0 \<le> v)"
  by (auto simp: list_all2_conv_all_nth all_set_conv_all_nth)

text \<open>What the solver is asked, written out for the construction of the notebook.\<close>

lemma feasible_build:
  "feasible (build caps) x \<longleftrightarrow>
     length x = 17 \<and> list_all2 (\<le>) x caps \<and> matvec lhs_balance x = rhs_balance
     \<and> (\<forall>v \<in> set x. 0 \<le> v)"
proof (cases "length x = 17")
  case True
  then show ?thesis
    by (simp add: feasible_def build_bounds nonneg_bounds)
       (simp add: build_def length_obj lhs_capacity_def matvec_eye)
next
  case False
  then show ?thesis
    by (simp add: feasible_def build_def length_obj)
qed

text \<open>The twelve balance rows as equations; the twelfth, \<open>0 = 0\<close>, leaves no trace.\<close>

lemma balance_equations:
  "matvec lhs_balance [a0,a1,a2,a3,a4,a5,a6,a7,a8,a9,a10,a11,a12,a13,a14,a15,a16] = rhs_balance
   \<longleftrightarrow> a0 + a1 = a13 + a16 \<and> a2 + a3 = a0 \<and> a4 + a5 = a1 \<and> a6 + a7 = a2 + a4
     \<and> a8 = a3 \<and> a9 + a10 = a5 + a6 \<and> a11 = a9 \<and> a12 + a14 = a7 + a10
     \<and> a13 = a11 + a12 \<and> a15 = a8 + a14 \<and> a16 = a15"
  by (simp add: lhs_balance_def rhs_balance_rows matvec_def dot_def) argo

lemma max_flow_build:
  "max_flow (build caps) [a0,a1,a2,a3,a4,a5,a6,a7,a8,a9,a10,a11,a12,a13,a14,a15,a16] = a13 + a16"
  by (simp add: max_flow_def opt_fun_def build_def obj_def dot_def)

lemma max_flow_build_any: "max_flow (build caps) x = max_flow (build caps') x"
  by (simp add: max_flow_def opt_fun_def build_def)

lemma feasible_value:
  assumes "feasible (build caps) x"
  shows "max_flow (build caps) x = x ! 13 + x ! 16" and "x ! 0 + x ! 1 = x ! 13 + x ! 16"
proof -
  from assms have l: "length x = 17" and b: "matvec lhs_balance x = rhs_balance"
    by (simp_all add: feasible_build)
  from len17 [OF l] obtain a0 a1 a2 a3 a4 a5 a6 a7 a8 a9 a10 a11 a12 a13 a14 a15 a16
    where x: "x = [a0,a1,a2,a3,a4,a5,a6,a7,a8,a9,a10,a11,a12,a13,a14,a15,a16]"
    by blast
  show "max_flow (build caps) x = x ! 13 + x ! 16"
    unfolding x max_flow_build by simp
  from b show "x ! 0 + x ! 1 = x ! 13 + x ! 16"
    unfolding x balance_equations by simp
qed

lemma feasible_capacity:
  assumes "feasible (build caps) x" "i < 17"
  shows "0 \<le> x ! i" and "x ! i \<le> caps ! i"
proof -
  from assms have l: "length x = 17" and c: "list_all2 (\<le>) x caps"
    and n: "\<forall>v \<in> set x. 0 \<le> v"
    by (simp_all add: feasible_build)
  from n l assms(2) show "0 \<le> x ! i" by simp
  from c l assms(2) show "x ! i \<le> caps ! i" by (simp add: list_all2_nthD)
qed

text \<open>Two cuts bound every feasible flow: the edges into the sink and the edges out of the source.\<close>

lemma value_le_sink_cut:
  assumes "feasible (build caps) x"
  shows "max_flow (build caps) x \<le> caps ! 13 + caps ! 16"
  using feasible_value(1) [OF assms] feasible_capacity(2) [OF assms, of 13]
    feasible_capacity(2) [OF assms, of 16] by simp

lemma value_le_source_cut:
  assumes "feasible (build caps) x"
  shows "max_flow (build caps) x \<le> caps ! 0 + caps ! 1"
  using feasible_value [OF assms] feasible_capacity(2) [OF assms, of 0]
    feasible_capacity(2) [OF assms, of 1] by simp

lemma optimal_max_flow:
  "optimal p x \<longleftrightarrow> feasible p x \<and> (\<forall>y. feasible p y \<longrightarrow> max_flow p y \<le> max_flow p x)"
  by (simp add: optimal_def max_flow_def opt_fun_def)

lemma optimal_at_sink_cut:
  assumes "feasible (build caps) x" "max_flow (build caps) x = caps ! 13 + caps ! 16"
  shows "optimal (build caps) x"
  unfolding optimal_max_flow using assms value_le_sink_cut by simp

text \<open>The vector that the notebook records is feasible and meets the bound of the cut.\<close>

lemma feasible_opt_x: "feasible (build rhs_capacity) opt_x"
  unfolding feasible_build
  by (simp add: opt_x_def rhs_capacity_def balance_equations)

lemma optimal_opt_x: "optimal opt_args opt_x"
  unfolding opt_args_build
  by (rule optimal_at_sink_cut [OF feasible_opt_x])
     (simp add: opt_x_def max_flow_build rhs_capacity_def)

lemma internal_nodes: "internal = ''ABCDEFGHIJ''"
  by (simp add: internal_def nodes_def source_def sink_def)

lemma conservation_build:
  assumes "feasible (build caps) x"
  shows "\<forall>n \<in> set internal. inflow n x = outflow n x"
proof -
  from assms have l: "length x = 17" and b: "matvec lhs_balance x = rhs_balance"
    by (simp_all add: feasible_build)
  from len17 [OF l] obtain a0 a1 a2 a3 a4 a5 a6 a7 a8 a9 a10 a11 a12 a13 a14 a15 a16
    where x: "x = [a0,a1,a2,a3,a4,a5,a6,a7,a8,a9,a10,a11,a12,a13,a14,a15,a16]"
    by blast
  from b show ?thesis
    unfolding x balance_equations
    by (simp add: internal_nodes inflow_def outflow_def labs_def edge_src_def edge_dst_def)
qed

lemma balance_row_values:
  "balance_row (CHR ''s'') = [1, 1, 0, 0, 0, 0, 0, 0, 0, 0, 0, 0, 0, -1, 0, 0, -1]"
  "balance_row (CHR ''A'') = [-1, 0, 1, 1, 0, 0, 0, 0, 0, 0, 0, 0, 0, 0, 0, 0, 0]"
  "balance_row (CHR ''B'') = [0, -1, 0, 0, 1, 1, 0, 0, 0, 0, 0, 0, 0, 0, 0, 0, 0]"
  "balance_row (CHR ''C'') = [0, 0, -1, 0, -1, 0, 1, 1, 0, 0, 0, 0, 0, 0, 0, 0, 0]"
  "balance_row (CHR ''D'') = [0, 0, 0, -1, 0, 0, 0, 0, 1, 0, 0, 0, 0, 0, 0, 0, 0]"
  "balance_row (CHR ''E'') = [0, 0, 0, 0, 0, -1, -1, 0, 0, 1, 1, 0, 0, 0, 0, 0, 0]"
  "balance_row (CHR ''F'') = [0, 0, 0, 0, 0, 0, 0, 0, 0, -1, 0, 1, 0, 0, 0, 0, 0]"
  "balance_row (CHR ''G'') = [0, 0, 0, 0, 0, 0, 0, -1, 0, 0, -1, 0, 1, 0, 1, 0, 0]"
  "balance_row (CHR ''H'') = [0, 0, 0, 0, 0, 0, 0, 0, 0, 0, 0, -1, -1, 1, 0, 0, 0]"
  "balance_row (CHR ''I'') = [0, 0, 0, 0, 0, 0, 0, 0, -1, 0, 0, 0, 0, 0, -1, 1, 0]"
  "balance_row (CHR ''J'') = [0, 0, 0, 0, 0, 0, 0, 0, 0, 0, 0, 0, 0, 0, 0, -1, 1]"
  "balance_row (CHR ''t'') = [0, 0, 0, 0, 0, 0, 0, 0, 0, 0, 0, 0, 0, 0, 0, 0, 0]"
  by (simp_all add: balance_row_def labs_def edge_src_def edge_dst_def source_def sink_def)

text \<open>The checks of a run: the length in cell 7, the finite numbers at the call.\<close>

lemma length_lhs_capacity: "length lhs_capacity = 17"
  by (simp add: lhs_capacity_def eye_def)

lemma length_nums: "length nums = 17"
  by (simp add: nums_def)

lemma those_finite: "those (map finite_value (map Number v)) = Some v"
  by (induction v) simp_all

lemma those_not_finite:
  "c \<in> set caps \<Longrightarrow> finite_value c = None \<Longrightarrow> those (map finite_value caps) = None"
  by (induction caps) (auto split: option.splits)

lemma labeled_capacity_error: "labeled_capacity caps = Inl ValueError \<longleftrightarrow> length caps \<noteq> 17"
  by (simp add: labeled_capacity_def column_stack3_def length_nums length_labs)

lemma run_finite:
  "length v = 17 \<Longrightarrow> run_cells (map Number v) = Inr (build v)"
  by (simp add: run_cells_def labeled_capacity_def column_stack3_def length_nums length_labs
      linprog_call_def those_finite length_lhs_capacity del: map_map)

text \<open>Raising one capacity keeps every feasible vector feasible.\<close>

lemma feasible_mono:
  assumes "feasible (build caps) x" "caps ! e \<le> k"
  shows "feasible (build (caps[e := k])) x"
proof -
  from assms(1) have c: "list_all2 (\<le>) x caps"
    by (simp add: feasible_build)
  have "list_all2 (\<le>) x (caps[e := k])"
  proof (cases "e < length caps")
    case True
    with c have "x ! e \<le> caps ! e"
      by (simp add: list_all2_conv_all_nth)
    with assms(2) have "x ! e \<le> k" by simp
    with c have "list_all2 (\<le>) (x[e := x ! e]) (caps[e := k])"
      by (rule list_all2_update_cong)
    then show ?thesis by simp
  next
    case False
    then have "caps[e := k] = caps" by (simp add: list_update_beyond)
    with c show ?thesis by simp
  qed
  with assms(1) show ?thesis
    by (simp add: feasible_build)
qed

lemma optimal_mono:
  assumes "optimal (build caps) x" "optimal (build (caps[e := k])) x'" "caps ! e \<le> k"
  shows "max_flow (build caps) x \<le> max_flow (build (caps[e := k])) x'"
proof -
  from assms(1) have "feasible (build caps) x"
    by (simp add: optimal_def)
  from feasible_mono [OF this assms(3)] assms(2)
  have "max_flow (build (caps[e := k])) x \<le> max_flow (build (caps[e := k])) x'"
    by (simp add: optimal_max_flow)
  then show ?thesis
    by (simp add: max_flow_build_any [of caps x "caps[e := k]"])
qed

subsection \<open>The worked example\<close>

text \<open>
  Claim C1. For the network of the notebook (17 edges in the order of \<open>labs\<close> with the
  capacities \<open>rhs_capacity\<close>) the linear program handed to the solver has the optimal
  objective \<open>-6\<close>, reached at the vector the notebook records, and the maximum flow,
  its negation, is 6: every optimal vector, whichever the solver returns, gives these
  two numbers.
\<close>

theorem worked_example_max_flow:
  "optimal opt_args opt_x \<and> opt_fun opt_args opt_x = - 6 \<and> max_flow opt_args opt_x = 6
   \<and> (\<forall>x. optimal opt_args x \<longrightarrow> opt_fun opt_args x = - 6 \<and> max_flow opt_args x = 6)"
proof -
  have v: "max_flow opt_args opt_x = 6"
    by (simp add: opt_args_build opt_x_def max_flow_build)
  have "opt_fun opt_args x = - 6 \<and> max_flow opt_args x = 6" if "optimal opt_args x" for x
  proof -
    from that optimal_opt_x have "max_flow opt_args opt_x \<le> max_flow opt_args x"
      by (simp add: optimal_max_flow)
    moreover from that have "max_flow opt_args x \<le> rhs_capacity ! 0 + rhs_capacity ! 1"
      unfolding opt_args_build optimal_def by (intro value_le_source_cut) simp
    ultimately have "max_flow opt_args x = 6"
      using v by (simp add: rhs_capacity_def)
    then show ?thesis
      unfolding max_flow_def by linarith
  qed
  moreover from v have "opt_fun opt_args opt_x = - 6"
    unfolding max_flow_def by linarith
  ultimately show ?thesis
    using v optimal_opt_x by blast
qed

theorem worked_example_max_flow_witness:
  "optimal opt_args opt_x \<and> opt_fun opt_args opt_x = - 6 \<and> max_flow opt_args opt_x = 6"
  using worked_example_max_flow optimal_opt_x by blast

text \<open>
  Claim C2. For every capacity vector on the network of the notebook, every vector that
  satisfies the constraints handed to the solver, so every vector it may return, puts
  on each edge a flow between 0 and the capacity of the edge and balances inflow and
  outflow at every node other than the source and the sink; the notebook is the
  instance at \<open>rhs_capacity\<close>, and the vector \<open>x\<close> recorded there satisfies every
  capacity row and every balance row. (Exact satisfaction is within every tolerance.)
\<close>

theorem returned_flow_feasible:
  "(feasible (build caps) x \<longrightarrow>
      length caps = length labs
      \<and> (\<forall>i<length labs. 0 \<le> x ! i \<and> x ! i \<le> caps ! i)
      \<and> (\<forall>n \<in> set internal. inflow n x = outflow n x))
   \<and> opt_args = build rhs_capacity
   \<and> feasible opt_args opt_x
   \<and> list_all2 (\<le>) (matvec lhs_capacity opt_x) rhs_capacity
   \<and> matvec lhs_balance opt_x = rhs_balance"
proof -
  have "list_all2 (\<le>) (matvec lhs_capacity opt_x) rhs_capacity"
    and "matvec lhs_balance opt_x = rhs_balance"
    using feasible_opt_x
    by (simp_all add: feasible_def build_def)
  moreover have "length caps = length labs" if "feasible (build caps) x"
    using that by (auto simp: feasible_build length_labs dest: list_all2_lengthD)
  ultimately show ?thesis
    using feasible_opt_x feasible_capacity [of caps x] conservation_build [of caps x]
    by (simp add: opt_args_build length_labs)
qed

theorem returned_flow_feasible_witness:
  "feasible (build rhs_capacity) opt_x
   \<and> list_all (\<lambda>i. 0 \<le> opt_x ! i \<and> opt_x ! i \<le> rhs_capacity ! i) [0..<17]
   \<and> list_all (\<lambda>n. inflow n opt_x = outflow n opt_x) internal
   \<and> feasible (build (rhs_capacity[16 := 0])) [3, 2, 3, 0, 0, 2, 0, 3, 0, 2, 0, 2, 3, 5, 0, 0, 0]
   \<and> list_all (\<lambda>i. 0 \<le> [3, 2, 3, 0, 0, 2, 0, 3, 0, 2, 0, 2, 3, 5, 0, 0, (0::real)] ! i
                   \<and> [3, 2, 3, 0, 0, 2, 0, 3, 0, 2, 0, 2, 3, 5, 0, 0, (0::real)] ! i
                      \<le> (rhs_capacity[16 := 0]) ! i) [0..<17]
   \<and> list_all (\<lambda>n. inflow n [3, 2, 3, 0, 0, 2, 0, 3, 0, 2, 0, 2, 3, 5, 0, 0, 0]
                   = outflow n [3, 2, 3, 0, 0, 2, 0, 3, 0, 2, 0, 2, 3, 5, 0, 0, 0]) internal"
proof -
  let ?y = "[3, 2, 3, 0, 0, 2, 0, 3, 0, 2, 0, 2, 3, 5, 0, 0, 0] :: vec"
  have f: "feasible (build (rhs_capacity[16 := 0])) ?y"
    unfolding feasible_build by (simp add: rhs_capacity_def balance_equations)
  from returned_flow_feasible [of rhs_capacity opt_x] feasible_opt_x
  have 1: "list_all (\<lambda>i. 0 \<le> opt_x ! i \<and> opt_x ! i \<le> rhs_capacity ! i) [0..<17]
     \<and> list_all (\<lambda>n. inflow n opt_x = outflow n opt_x) internal"
    by (simp add: length_labs list_all_iff)
  from returned_flow_feasible [of "rhs_capacity[16 := 0]" ?y] f
  have 2: "list_all (\<lambda>i. 0 \<le> ?y ! i \<and> ?y ! i \<le> (rhs_capacity[16 := 0]) ! i) [0..<17]
     \<and> list_all (\<lambda>n. inflow n ?y = outflow n ?y) internal"
    by (simp add: length_labs list_all_iff)
  from 1 2 f feasible_opt_x show ?thesis by blast
qed

subsection \<open>The balance system\<close>

text \<open>
  Against claim C3: the balance system of the notebook is not the one built by the rule
  of the specification. It has twelve rows, not eleven; its last row, the sink's, is
  all zero; the row of the source is not the incidence row of the source; and the row
  of an inner node has the opposite signs.
\<close>

theorem balance_rows_not_spec_rule:
  "lhs_balance \<noteq> spec_balance
   \<and> length lhs_balance = 12 \<and> length spec_balance = 11
   \<and> lhs_balance ! 11 = replicate 17 0
   \<and> lhs_balance ! 0 \<noteq> incidence_row source
   \<and> lhs_balance ! 1 \<noteq> incidence_row (CHR ''A'')"
proof -
  have a: "length lhs_balance = 12"
    by (simp add: lhs_balance_def)
  have b: "length spec_balance = 11"
    by (simp add: spec_balance_def nodes_def sink_def)
  have c: "lhs_balance ! 11 = replicate 17 0"
    by (simp add: lhs_balance_def numeral_eq_Suc)
  have d: "lhs_balance ! 0 \<noteq> incidence_row source"
    by (simp add: lhs_balance_def incidence_row_def labs_def edge_src_def edge_dst_def source_def)
  have e: "lhs_balance ! 1 \<noteq> incidence_row (CHR ''A'')"
    by (simp add: lhs_balance_def incidence_row_def labs_def edge_src_def edge_dst_def)
  from a b have "lhs_balance \<noteq> spec_balance" by auto
  with a b c d e show ?thesis by simp
qed

text \<open>
  Claim C3, amended. The balance system has one row per node, the sink included, each
  with right-hand side 0. A row has \<open>-1\<close> on every edge into its node and \<open>+1\<close> on
  every edge out of it; the row of the source has in addition \<open>-1\<close> on the edges into
  the sink, and the row of the sink \<open>+1\<close> on them, which makes it all zero. The matrix
  is not of full row rank: it holds a zero row, and its other eleven rows add up to the
  zero row.
\<close>

theorem balance_rows_rule:
  "lhs_balance = map balance_row nodes
   \<and> rhs_balance = replicate (length nodes) 0
   \<and> balance_row sink = replicate 17 0
   \<and> add_rows (butlast lhs_balance) = replicate 17 0"
proof -
  have "lhs_balance = map balance_row nodes"
    by (simp add: nodes_def balance_row_values) (simp add: lhs_balance_def)
  moreover have "length nodes = 12"
    by (simp add: nodes_def)
  then have "rhs_balance = replicate (length nodes) 0"
    by (simp add: rhs_balance_def)
  moreover have "balance_row sink = replicate 17 0"
    by (simp add: sink_def balance_row_values numeral_eq_Suc)
  moreover have "add_rows (butlast lhs_balance) = replicate 17 0"
    by (simp add: add_rows_def lhs_balance_def numeral_eq_Suc)
  ultimately show ?thesis by simp
qed

text \<open>
  Claim C4. For every vector satisfying the constraints, the reported maximum flow (the
  negated objective) is the sum of the flows on the edges into the sink, \<open>x[13] + x[16]\<close>
  for \<^verbatim>\<open>e_Ht\<close> and \<^verbatim>\<open>e_Jt\<close>, and also the sum of the flows on the edges out of
  the source, \<open>x[0] + x[1]\<close> for \<^verbatim>\<open>e_sA\<close> and \<^verbatim>\<open>e_sB\<close>.
\<close>

theorem flow_value_at_source_and_sink:
  "feasible opt_args x \<Longrightarrow>
     max_flow opt_args x = inflow sink x \<and> inflow sink x = x ! 13 + x ! 16
     \<and> max_flow opt_args x = outflow source x \<and> outflow source x = x ! 0 + x ! 1"
proof -
  assume f: "feasible opt_args x"
  then have l: "length x = 17"
    by (simp add: opt_args_build feasible_build)
  from len17 [OF l] obtain a0 a1 a2 a3 a4 a5 a6 a7 a8 a9 a10 a11 a12 a13 a14 a15 a16
    where x: "x = [a0,a1,a2,a3,a4,a5,a6,a7,a8,a9,a10,a11,a12,a13,a14,a15,a16]"
    by blast
  have i: "inflow sink x = x ! 13 + x ! 16"
    unfolding x by (simp add: inflow_def labs_def edge_dst_def sink_def)
  have out: "outflow source x = x ! 0 + x ! 1"
    unfolding x by (simp add: outflow_def labs_def edge_src_def source_def)
  from f feasible_value [of rhs_capacity x] i out show ?thesis
    by (simp add: opt_args_build)
qed

theorem flow_value_at_source_and_sink_witness:
  "max_flow opt_args opt_x = 6 \<and> inflow sink opt_x = 5 + 1 \<and> outflow source opt_x = 3 + 3"
  using flow_value_at_source_and_sink [of opt_x] feasible_opt_x
  by (simp add: opt_args_build opt_x_def)

subsection \<open>Reading the result\<close>

text \<open>
  Against claim C5: a component of \<open>-10\<^sup>-\<^sup>9\<close> on the edge \<^verbatim>\<open>e_EG\<close> is presented
  as it is, not as 0.
\<close>

theorem decode_keeps_negative_noise:
  "optimal_flow (opt_x[10 := - (1 / 10 ^ 9)]) =
     Inr [(''e_sA'', 3), (''e_sB'', 3), (''e_AC'', 2), (''e_AD'', 1), (''e_BC'', 1),
          (''e_BE'', 2), (''e_CE'', 1), (''e_CG'', 2), (''e_DI'', 1), (''e_EF'', 3),
          (''e_EG'', - (1 / 10 ^ 9)), (''e_FH'', 3), (''e_GH'', 2), (''e_Ht'', 5),
          (''e_GI'', 0), (''e_IJ'', 1), (''e_Jt'', 1)]"
  by (simp add: optimal_flow_def column_stack_def labs_def opt_x_def)

text \<open>
  Claim C5, amended. For a vector with one component per edge, the decoding pairs the
  labels, in the order of the variables, with the components of the vector unchanged:
  nothing is clipped, and no value is treated as an error.
\<close>

theorem decode_pairs_labels:
  "length x = length labs \<Longrightarrow>
     \<exists>r. optimal_flow x = Inr r \<and> map fst r = labs \<and> map snd r = x"
  by (simp add: optimal_flow_def column_stack_def)

theorem decode_pairs_labels_witness:
  "length opt_x = length labs
   \<and> (\<exists>r. optimal_flow opt_x = Inr r \<and> map fst r = labs \<and> map snd r = opt_x)"
proof -
  have l: "length opt_x = length labs"
    by (simp add: opt_x_def labs_def)
  from decode_pairs_labels [OF l] l show ?thesis by simp
qed

subsection \<open>Bounds and objective\<close>

text \<open>
  Claim C6. In the problem handed to the solver each of the 17 edge variables is bounded
  by \<open>[0, +\<infinity>)\<close>. The bounds are the solver's own for a call that passes none: the
  list \<open>bnd\<close> of cell 9 has 12 pairs and is not an argument of the call.
\<close>

theorem solver_bounds:
  "linprog_bounds opt_args = replicate (length labs) (0, PosInf)
   \<and> length (lp_c opt_args) = length labs \<and> length labs = 17
   \<and> lp_bounds opt_args = None \<and> length bnd = 12"
  by (simp add: opt_args_build build_bounds length_labs)
     (simp add: build_def length_obj bnd_def)

text \<open>
  Claim C7. The objective has \<open>-1\<close> at every edge whose destination is the sink and 0
  at every other edge; the entries \<open>-1\<close> are at the indices 13 and 16, those of
  \<^verbatim>\<open>e_Ht\<close> and \<^verbatim>\<open>e_Jt\<close>, the only edges into \<open>t\<close>.
\<close>

theorem objective_marks_sink_edges:
  "obj = map (\<lambda>l. if edge_dst l = sink then - 1 else 0) labs
   \<and> filter (\<lambda>i. obj ! i = - 1) [0..<length obj] = [13, 16]
   \<and> filter (\<lambda>i. edge_dst (labs ! i) = sink) [0..<length labs] = [13, 16]
   \<and> labs ! 13 = ''e_Ht'' \<and> labs ! 16 = ''e_Jt''"
  by (simp add: obj_def labs_def edge_dst_def sink_def upt_rec_numeral)

subsection \<open>Other capacities\<close>

text \<open>
  Against claim C8: with the capacity \<open>-1\<close> on the edge \<^verbatim>\<open>e_Jt\<close> the run raises
  nothing, and the complete argument record reaches the solver, the negative number in
  it.
\<close>

theorem run_accepts_negative_capacity:
  "run_cells (map Number (rhs_capacity[16 := - 1])) =
     Inr \<lparr>lp_c = obj, lp_A_ub = lhs_capacity,
          lp_b_ub = [3, 3, 4, 2, 2, 2, 3, 4, 5, 3, 4, 4, 3, 5, 3, 3, - 1],
          lp_A_eq = lhs_balance, lp_b_eq = rhs_balance, lp_bounds = None\<rparr>"
proof -
  have "length (rhs_capacity[16 := - 1]) = 17"
    by (simp add: rhs_capacity_def)
  from run_finite [OF this] show ?thesis
    by (simp add: build_def rhs_capacity_def)
qed

text \<open>
  Claim C8, amended. A run on a list of capacities raises a \<^verbatim>\<open>ValueError\<close> when
  the list has not 17 entries (in the cell of \<^verbatim>\<open>labeled_capacity\<close>, before any call)
  and when one of 17 entries is not finite (at the call of the solver, the table of
  cell 7 built). A negative capacity is no error: for every 17 finite capacities,
  negative ones among them, the complete argument record reaches the solver with these
  capacities as the right-hand side of the capacity rows, and with a negative capacity
  the problem has no feasible vector.
\<close>

theorem run_errors:
  "(length caps \<noteq> 17 \<longrightarrow>
      labeled_capacity caps = Inl ValueError \<and> run_cells caps = Inl ValueError)
   \<and> (length caps = 17 \<and> c \<in> set caps \<and> finite_value c = None \<longrightarrow>
      labeled_capacity caps = Inr (zip nums (zip labs caps))
      \<and> linprog_call caps = Inl ValueError \<and> run_cells caps = Inl ValueError)
   \<and> (length v = 17 \<longrightarrow>
      run_cells (map Number v) = Inr (build v)
      \<and> lp_b_ub (build v) = v
      \<and> (i < 17 \<and> v ! i < 0 \<longrightarrow> \<not> feasible (build v) x))"
proof (intro conjI impI)
  assume "length caps \<noteq> 17"
  then show "labeled_capacity caps = Inl ValueError"
    by (simp add: labeled_capacity_error)
  then show "run_cells caps = Inl ValueError"
    by (simp add: run_cells_def)
next
  assume a: "length caps = 17 \<and> c \<in> set caps \<and> finite_value c = None"
  then show t: "labeled_capacity caps = Inr (zip nums (zip labs caps))"
    by (simp add: labeled_capacity_def column_stack3_def length_nums length_labs)
  from a have "those (map finite_value caps) = None"
    using those_not_finite [of c caps] by blast
  then show e: "linprog_call caps = Inl ValueError"
    by (simp add: linprog_call_def)
  from t e show "run_cells caps = Inl ValueError"
    by (simp add: run_cells_def)
next
  assume "length v = 17"
  then show "run_cells (map Number v) = Inr (build v)"
    by (rule run_finite)
next
  show "lp_b_ub (build v) = v"
    by (simp add: build_def)
next
  assume n: "i < 17 \<and> v ! i < 0"
  show "\<not> feasible (build v) x"
  proof
    assume f: "feasible (build v) x"
    from n feasible_capacity [OF f, of i] show False by simp
  qed
qed

theorem run_errors_witness:
  "run_cells (map Number (butlast rhs_capacity)) = Inl ValueError
   \<and> labeled_capacity (map Number (butlast rhs_capacity)) = Inl ValueError
   \<and> run_cells ((map Number rhs_capacity)[16 := PosInfinity]) = Inl ValueError
   \<and> linprog_call ((map Number rhs_capacity)[16 := PosInfinity]) = Inl ValueError
   \<and> labeled_capacity ((map Number rhs_capacity)[16 := PosInfinity])
       = Inr (zip nums (zip labs ((map Number rhs_capacity)[16 := PosInfinity])))
   \<and> run_cells (map Number (rhs_capacity[16 := - 1])) = Inr (build (rhs_capacity[16 := - 1]))
   \<and> (rhs_capacity[16 := - 1]) ! 16 < 0
   \<and> \<not> feasible (build (rhs_capacity[16 := - 1])) opt_x"
proof -
  have a: "length (map Number (butlast rhs_capacity)) \<noteq> 17"
    by (simp add: rhs_capacity_def)
  have b: "length ((map Number rhs_capacity)[16 := PosInfinity]) = 17
           \<and> PosInfinity \<in> set ((map Number rhs_capacity)[16 := PosInfinity])
           \<and> finite_value PosInfinity = None"
    by (simp add: rhs_capacity_def)
  have c: "length (rhs_capacity[16 := - 1]) = 17"
    by (simp add: rhs_capacity_def)
  have d: "(16::nat) < 17 \<and> (rhs_capacity[16 := - 1]) ! 16 < 0"
    by (simp add: rhs_capacity_def)
  from run_errors [of "map Number (butlast rhs_capacity)" PosInfinity "[]" 0 "[]"] a
  have 1: "run_cells (map Number (butlast rhs_capacity)) = Inl ValueError
           \<and> labeled_capacity (map Number (butlast rhs_capacity)) = Inl ValueError"
    by blast
  from run_errors [of "(map Number rhs_capacity)[16 := PosInfinity]" PosInfinity "[]" 0 "[]"] b
  have 2: "run_cells ((map Number rhs_capacity)[16 := PosInfinity]) = Inl ValueError
     \<and> linprog_call ((map Number rhs_capacity)[16 := PosInfinity]) = Inl ValueError
     \<and> labeled_capacity ((map Number rhs_capacity)[16 := PosInfinity])
         = Inr (zip nums (zip labs ((map Number rhs_capacity)[16 := PosInfinity])))"
    by blast
  from run_errors [of "[]" PosInfinity "rhs_capacity[16 := - 1]" 16 opt_x] c d
  have 3: "run_cells (map Number (rhs_capacity[16 := - 1])) = Inr (build (rhs_capacity[16 := - 1]))
     \<and> \<not> feasible (build (rhs_capacity[16 := - 1])) opt_x"
    by blast
  from 1 2 3 d show ?thesis by blast
qed

text \<open>
  Claim C9. With optimal vectors for the capacities before and after the change of the
  capacity of one edge \<open>e\<close>: if the capacity was raised, the maximum flow did not
  decrease; if it was lowered, the maximum flow did not increase.
\<close>

theorem capacity_monotone:
  "optimal (build caps) x \<Longrightarrow> optimal (build (caps[e := k])) x' \<Longrightarrow>
     (caps ! e \<le> k \<longrightarrow> max_flow (build caps) x \<le> max_flow (build (caps[e := k])) x')
     \<and> (k \<le> caps ! e \<longrightarrow> max_flow (build (caps[e := k])) x' \<le> max_flow (build caps) x)"
proof (intro conjI impI)
  assume "optimal (build caps) x" "optimal (build (caps[e := k])) x'" "caps ! e \<le> k"
  then show "max_flow (build caps) x \<le> max_flow (build (caps[e := k])) x'"
    by (rule optimal_mono)
next
  assume a: "optimal (build caps) x" "optimal (build (caps[e := k])) x'" "k \<le> caps ! e"
  show "max_flow (build (caps[e := k])) x' \<le> max_flow (build caps) x"
  proof (cases "e < length caps")
    case True
    then have "(caps[e := k])[e := caps ! e] = caps" "(caps[e := k]) ! e = k"
      by simp_all
    with optimal_mono [of "caps[e := k]" x' e "caps ! e" x] a show ?thesis
      by simp
  next
    case False
    then have "caps[e := k] = caps" by (simp add: list_update_beyond)
    with a show ?thesis
      by (simp add: optimal_max_flow)
  qed
qed

theorem capacity_monotone_witness:
  "optimal (build rhs_capacity) opt_x
   \<and> optimal (build (rhs_capacity[16 := 0])) [3, 2, 3, 0, 0, 2, 0, 3, 0, 2, 0, 2, 3, 5, 0, 0, 0]
   \<and> max_flow (build rhs_capacity) opt_x = 6
   \<and> max_flow (build (rhs_capacity[16 := 0])) [3, 2, 3, 0, 0, 2, 0, 3, 0, 2, 0, 2, 3, 5, 0, 0, 0] = 5
   \<and> max_flow (build (rhs_capacity[16 := 0])) [3, 2, 3, 0, 0, 2, 0, 3, 0, 2, 0, 2, 3, 5, 0, 0, 0]
       \<le> max_flow (build rhs_capacity) opt_x
   \<and> max_flow (build (rhs_capacity[16 := 0])) [3, 2, 3, 0, 0, 2, 0, 3, 0, 2, 0, 2, 3, 5, 0, 0, 0]
       \<le> max_flow (build ((rhs_capacity[16 := 0])[16 := 1])) opt_x"
proof -
  let ?y = "[3, 2, 3, 0, 0, 2, 0, 3, 0, 2, 0, 2, 3, 5, 0, 0, 0] :: vec"
  have o1: "optimal (build rhs_capacity) opt_x"
    using optimal_opt_x by (simp add: opt_args_build)
  have "feasible (build (rhs_capacity[16 := 0])) ?y"
    unfolding feasible_build by (simp add: rhs_capacity_def balance_equations)
  then have o2: "optimal (build (rhs_capacity[16 := 0])) ?y"
    by (rule optimal_at_sink_cut) (simp add: max_flow_build rhs_capacity_def)
  have same: "(rhs_capacity[16 := 0])[16 := 1] = rhs_capacity"
    by (simp add: rhs_capacity_def)
  have k: "(0::real) \<le> rhs_capacity ! 16" "(rhs_capacity[16 := 0]) ! 16 \<le> 1"
    by (simp_all add: rhs_capacity_def)
  have v: "max_flow (build (rhs_capacity[16 := 0])) ?y = 5" "max_flow (build rhs_capacity) opt_x = 6"
    by (simp_all add: max_flow_build opt_x_def)
  have o3: "optimal (build ((rhs_capacity[16 := 0])[16 := 1])) opt_x"
    using o1 by (subst same)
  from capacity_monotone [OF o1 o2] capacity_monotone [OF o2 o3] k o1 o2 v show ?thesis
    by blast
qed

text \<open>
  Claim C10. Every vector \<open>x\<close> with \<open>lhs_balance x = 0\<close>, optimal or not, has
  \<open>x[0] + x[1] = x[13] + x[16]\<close>: the first row, the source's, has \<open>+1\<close> on the two
  edges out of \<open>s\<close> and \<open>-1\<close> on the two edges into \<open>t\<close>, and the last row, the
  sink's, is zero.
\<close>

theorem balance_source_equals_sink:
  "length x = 17 \<Longrightarrow> matvec lhs_balance x = rhs_balance \<Longrightarrow>
     x ! 0 + x ! 1 = x ! 13 + x ! 16
     \<and> lhs_balance ! 0 = [1, 1, 0, 0, 0, 0, 0, 0, 0, 0, 0, 0, 0, - 1, 0, 0, - 1]
     \<and> lhs_balance ! 11 = replicate 17 0"
proof -
  assume l: "length x = 17" and b: "matvec lhs_balance x = rhs_balance"
  from len17 [OF l] obtain a0 a1 a2 a3 a4 a5 a6 a7 a8 a9 a10 a11 a12 a13 a14 a15 a16
    where x: "x = [a0,a1,a2,a3,a4,a5,a6,a7,a8,a9,a10,a11,a12,a13,a14,a15,a16]"
    by blast
  from b have "x ! 0 + x ! 1 = x ! 13 + x ! 16"
    unfolding x balance_equations by simp
  moreover have "lhs_balance ! 0 = [1, 1, 0, 0, 0, 0, 0, 0, 0, 0, 0, 0, 0, - 1, 0, 0, - 1]"
    by (simp add: lhs_balance_def)
  moreover have "lhs_balance ! 11 = replicate 17 0"
    by (simp add: lhs_balance_def numeral_eq_Suc)
  ultimately show ?thesis by simp
qed

theorem balance_source_equals_sink_witness:
  "matvec lhs_balance [1, 0, 0, 1, 0, 0, 0, 0, 1, 0, 0, 0, 0, 0, 0, 1, 1] = rhs_balance
   \<and> \<not> optimal opt_args [1, 0, 0, 1, 0, 0, 0, 0, 1, 0, 0, 0, 0, 0, 0, 1, 1]
   \<and> [1, 0, 0, 1, 0, 0, 0, 0, 1, 0, 0, 0, 0, 0, 0, 1, 1] ! 0
       + [1, 0, 0, 1, 0, 0, 0, 0, 1, 0, 0, 0, 0, 0, 0, 1, 1] ! 1
     = [1, 0, 0, 1, 0, 0, 0, 0, 1, 0, 0, 0, 0, 0, 0, 1, 1] ! 13
       + [1, 0, 0, 1, 0, 0, 0, 0, 1, 0, 0, 0, 0, 0, 0, 1, 1] ! 16 + (0::real)"
proof -
  let ?x = "[1, 0, 0, 1, 0, 0, 0, 0, 1, 0, 0, 0, 0, 0, 0, 1, 1] :: vec"
  have b: "matvec lhs_balance ?x = rhs_balance"
    by (simp add: balance_equations)
  have "\<not> optimal opt_args ?x"
  proof
    assume "optimal opt_args ?x"
    with feasible_opt_x have "max_flow opt_args opt_x \<le> max_flow opt_args ?x"
      by (simp add: optimal_max_flow opt_args_build)
    then show False by (simp add: opt_args_build opt_x_def max_flow_build)
  qed
  with b balance_source_equals_sink [of ?x] show ?thesis by simp
qed

end
